theory Spec2Isabelle
  imports Complex_Main "HOL-Library.Product_Lexorder"
begin

section \<open>Dates, times and timestamps\<close>

text \<open>
  The SQL works on PostgreSQL timestamps (microsecond resolution, no time zone).
  A timestamp is the number of microseconds since 2000-01-01 00:00:00, a date the number
  of days since 2000-01-01, a time of day the number of microseconds since midnight and
  an interval a number of microseconds.
\<close>

type_synonym timestamp = int
type_synonym date = int
type_synonym time = int
type_synonym interval = int

definition USECS_PER_HOUR :: int where
  "USECS_PER_HOUR = 3600000000"

definition USECS_PER_DAY :: int where
  "USECS_PER_DAY = 24 * USECS_PER_HOUR"

text \<open>\<^verbatim>\<open>ts::date\<close> and \<^verbatim>\<open>ts::time\<close>.\<close>

definition cast_date :: "timestamp \<Rightarrow> date" where
  "cast_date ts = ts div USECS_PER_DAY"

definition cast_time :: "timestamp \<Rightarrow> time" where
  "cast_time ts = ts mod USECS_PER_DAY"

text \<open>
  \<^verbatim>\<open>EXTRACT(dow FROM ts)\<close>: 0 is Sunday, 5 is Friday, 6 is Saturday.
  Day 0 (2000-01-01) was a Saturday.
\<close>

definition extract_dow :: "timestamp \<Rightarrow> int" where
  "extract_dow ts = (cast_date ts + 6) mod 7"

text \<open>\<^verbatim>\<open>date + interval\<close> is the timestamp that far after the date's midnight.\<close>

definition date_plus_interval :: "date \<Rightarrow> interval \<Rightarrow> timestamp" where
  "date_plus_interval d i = d * USECS_PER_DAY + i"

text \<open>The literals \<^verbatim>\<open>'09:00:00'\<close>, \<^verbatim>\<open>'20:00:00'\<close>,
  \<^verbatim>\<open>INTERVAL '9 hours'\<close> and \<^verbatim>\<open>INTERVAL '1 days 9 hours'\<close>.\<close>

definition time_09 :: time where
  "time_09 = 9 * USECS_PER_HOUR"

definition time_20 :: time where
  "time_20 = 20 * USECS_PER_HOUR"

definition interval_9_hours :: interval where
  "interval_9_hours = 9 * USECS_PER_HOUR"

definition interval_1_days_9_hours :: interval where
  "interval_1_days_9_hours = USECS_PER_DAY + 9 * USECS_PER_HOUR"

section \<open>SQL three-valued logic\<close>

text \<open>
  A nullable column or expression is an \<open>option\<close>, \<open>None\<close> being NULL. A comparison
  with a NULL operand is NULL; \<^verbatim>\<open>AND\<close> and \<^verbatim>\<open>OR\<close> are Kleene's; a
  \<^verbatim>\<open>WHEN\<close> or \<^verbatim>\<open>WHERE\<close> condition holds only when it is true.
\<close>

type_synonym sql_bool = "bool option"

definition sql_cmp :: "('a \<Rightarrow> 'a \<Rightarrow> bool) \<Rightarrow> 'a option \<Rightarrow> 'a option \<Rightarrow> sql_bool" where
  "sql_cmp p a b = (case (a, b) of (Some x, Some y) \<Rightarrow> Some (p x y) | _ \<Rightarrow> None)"

definition sql_eq :: "'a option \<Rightarrow> 'a option \<Rightarrow> sql_bool" where
  "sql_eq = sql_cmp (\<lambda>x y. x = y)"

definition sql_neq :: "'a option \<Rightarrow> 'a option \<Rightarrow> sql_bool" where
  "sql_neq = sql_cmp (\<lambda>x y. x \<noteq> y)"

definition sql_lt :: "int option \<Rightarrow> int option \<Rightarrow> sql_bool" where
  "sql_lt = sql_cmp (\<lambda>x y. x < y)"

definition sql_gt :: "int option \<Rightarrow> int option \<Rightarrow> sql_bool" where
  "sql_gt = sql_cmp (\<lambda>x y. x > y)"

definition sql_and :: "sql_bool \<Rightarrow> sql_bool \<Rightarrow> sql_bool" where
  "sql_and a b =
     (if a = Some False \<or> b = Some False then Some False
      else if a = Some True \<and> b = Some True then Some True
      else None)"

definition sql_or :: "sql_bool \<Rightarrow> sql_bool \<Rightarrow> sql_bool" where
  "sql_or a b =
     (if a = Some True \<or> b = Some True then Some True
      else if a = Some False \<and> b = Some False then Some False
      else None)"

definition is_true :: "sql_bool \<Rightarrow> bool" where
  "is_true b = (b = Some True)"

text \<open>\<^verbatim>\<open>MIN\<close> over the rows of a subquery: NULL when there is no row.\<close>

definition sql_min :: "int list \<Rightarrow> int option" where
  "sql_min xs = (case xs of [] \<Rightarrow> None | x # ys \<Rightarrow> Some (fold min ys x))"

text \<open>\<^verbatim>\<open>a >= b\<close>, for the specification's invariant on the registration timestamp.\<close>

definition sql_ge :: "int option \<Rightarrow> int option \<Rightarrow> sql_bool" where
  "sql_ge = sql_cmp (\<lambda>x y. x \<ge> y)"

section \<open>Tables\<close>

text \<open>The four columns that the view carries from \<^verbatim>\<open>all_raw\<close> to its result.\<close>

record response =
  id_client :: nat
  date_request :: timestamp
  date_response :: "timestamp option"
  manager :: string

record all_raw_row = response +
  action_manager :: string
  source_client :: string

record dict_calendar_row =
  date_calendar :: date
  is_working :: int

record all_response_row = response +
  rn :: nat

record first_response_row = all_response_row +
  dow :: int
  date_req :: date
  time_req :: time

record shift_request_row = response +
  date_registration :: "timestamp option"

section \<open>Step 2: the first response to each client\<close>

text \<open>
  \<^verbatim>\<open>WHERE action_manager = 'response' AND source_client IN (SELECT name_source FROM source_list)\<close>
\<close>

definition all_response_where :: "string list \<Rightarrow> all_raw_row \<Rightarrow> bool" where
  "all_response_where source_list r =
     (action_manager r = ''response'' \<and> source_client r \<in> set source_list)"

text \<open>
  \<^verbatim>\<open>ORDER BY date_response ASC\<close> puts NULL after every value. Rows with the same
  \<^verbatim>\<open>date_response\<close> come in an order SQL leaves open; the model keeps the order in which
  the table lists them, and the table is an arbitrary list, so that every order of a tie is
  the model's for some listing of the table.
\<close>

definition nulls_last :: "int option \<Rightarrow> nat \<times> int" where
  "nulls_last v = (case v of Some x \<Rightarrow> (0, x) | None \<Rightarrow> (1, 0))"

definition all_response_select :: "nat \<times> all_raw_row \<Rightarrow> all_response_row" where
  "all_response_select nr =
     (case nr of (n, r) \<Rightarrow>
       \<lparr>id_client = id_client r, date_request = date_request r,
        date_response = date_response r, manager = manager r, rn = n\<rparr>)"

text \<open>\<^verbatim>\<open>ROW_NUMBER() OVER (PARTITION BY id_client ORDER BY date_response ASC)\<close>:
  the rows of one client, numbered from 1 in the order of their \<^verbatim>\<open>date_response\<close>.\<close>

definition row_number_partition :: "all_raw_row list \<Rightarrow> nat \<Rightarrow> all_response_row list" where
  "row_number_partition sel c =
     map all_response_select
       (enumerate 1 (sort_key (\<lambda>r. nulls_last (date_response r))
                       (filter (\<lambda>r. id_client r = c) sel)))"

definition all_response :: "string list \<Rightarrow> all_raw_row list \<Rightarrow> all_response_row list" where
  "all_response source_list all_raw =
     (let sel = filter (all_response_where source_list) all_raw
      in concat (map (row_number_partition sel) (remdups (map id_client sel))))"

definition first_response_select :: "all_response_row \<Rightarrow> first_response_row" where
  "first_response_select r =
     \<lparr>id_client = id_client r, date_request = date_request r,
      date_response = date_response r, manager = manager r, rn = rn r,
      dow = extract_dow (date_request r),
      date_req = cast_date (date_request r),
      time_req = cast_time (date_request r)\<rparr>"

definition first_response :: "string list \<Rightarrow> all_raw_row list \<Rightarrow> first_response_row list" where
  "first_response source_list all_raw =
     map first_response_select (filter (\<lambda>r. rn r = 1) (all_response source_list all_raw))"

section \<open>Step 3: moving the request into working time\<close>

text \<open>
  The \<^verbatim>\<open>CASE\<close> expression of \<^verbatim>\<open>shift_request\<close>, for a row \<open>fr\<close> of
  \<^verbatim>\<open>first_response\<close> joined with \<open>dc\<close>, the row of \<^verbatim>\<open>dict_calendar\<close> that the
  \<^verbatim>\<open>LEFT JOIN\<close> found for it (\<open>None\<close>: no row, every column of \<open>dc\<close> is NULL).
\<close>

definition next_working :: "dict_calendar_row list \<Rightarrow> date \<Rightarrow> date option" where
  "next_working dict_calendar d =
     sql_min (map date_calendar
       (filter (\<lambda>dc. date_calendar dc > d \<and> is_working dc = 1) dict_calendar))"

definition date_registration_case ::
  "dict_calendar_row list \<Rightarrow> first_response_row \<Rightarrow> dict_calendar_row option
     \<Rightarrow> timestamp option" where
  "date_registration_case dict_calendar fr dc =
     (let dc_is_working = map_option is_working dc in
      if is_true (sql_or (sql_eq dc_is_working (Some 0))
            (sql_and (sql_and (sql_eq dc_is_working (Some 1)) (sql_eq (Some (dow fr)) (Some 5)))
               (sql_gt (Some (time_req fr)) (Some time_20))))
      then map_option (\<lambda>d. date_plus_interval d interval_9_hours)
             (next_working dict_calendar (date_req fr))
      else if is_true (sql_and (sql_eq dc_is_working (Some 1))
                 (sql_lt (Some (time_req fr)) (Some time_09)))
      then Some (date_plus_interval (date_req fr) interval_9_hours)
      else if is_true (sql_and (sql_and (sql_eq dc_is_working (Some 1))
                 (sql_neq (Some (dow fr)) (Some 5)))
                 (sql_gt (Some (time_req fr)) (Some time_20)))
      then Some (date_plus_interval (date_req fr) interval_1_days_9_hours)
      else Some (date_request fr))"

text \<open>
  \<^verbatim>\<open>FROM first_response fr LEFT JOIN dict_calendar dc ON fr.date_req = dc.date_calendar\<close>:
  one pair for every calendar row of the request's date, and one pair with a NULL calendar
  row when the calendar has no row of that date.
\<close>

definition left_join_calendar ::
  "dict_calendar_row list \<Rightarrow> first_response_row
     \<Rightarrow> (first_response_row \<times> dict_calendar_row option) list" where
  "left_join_calendar dict_calendar fr =
     (case filter (\<lambda>dc. date_req fr = date_calendar dc) dict_calendar of
        [] \<Rightarrow> [(fr, None)]
      | ms \<Rightarrow> map (\<lambda>dc. (fr, Some dc)) ms)"

definition shift_request_select ::
  "dict_calendar_row list \<Rightarrow> first_response_row \<times> dict_calendar_row option
     \<Rightarrow> shift_request_row" where
  "shift_request_select dict_calendar j =
     (case j of (fr, dc) \<Rightarrow>
       \<lparr>id_client = id_client fr, date_request = date_request fr,
        date_response = date_response fr, manager = manager fr,
        date_registration = date_registration_case dict_calendar fr dc\<rparr>)"

definition shift_request ::
  "dict_calendar_row list \<Rightarrow> first_response_row list \<Rightarrow> shift_request_row list" where
  "shift_request dict_calendar frs =
     concat (map (\<lambda>fr. map (shift_request_select dict_calendar)
                          (left_join_calendar dict_calendar fr)) frs)"

section \<open>Step 4: the handling time in hours\<close>

text \<open>
  \<^verbatim>\<open>ROUND(EXTRACT(EPOCH FROM date_response - date_registration) / 3600, 2)\<close> works on
  PostgreSQL's type \<^verbatim>\<open>numeric\<close>, a decimal number with a display scale (the number of
  places after the point) whose digits are kept in base 10000.

  \<^verbatim>\<open>EXTRACT(EPOCH FROM i)\<close> is the interval in seconds, an exact decimal of scale 6.
  \<^verbatim>\<open>ROUND(x, n)\<close> rounds to \<open>n\<close> places, a tie away from zero. The numbers are
  rationals; the scale is kept where the division needs it.
\<close>

definition extract_epoch :: "interval \<Rightarrow> rat" where
  "extract_epoch i = of_int i / 1000000"

definition sql_round :: "rat \<Rightarrow> nat \<Rightarrow> rat" where
  "sql_round x n = sgn x * of_int \<lfloor>\<bar>x\<bar> * 10 ^ n + 1 / 2\<rfloor> / 10 ^ n"

text \<open>
  The division \<^verbatim>\<open>numeric / numeric\<close> is not exact: PostgreSQL chooses a scale for the
  quotient (\<^verbatim>\<open>select_div_scale\<close>) and rounds the quotient to it. The scale depends
  on the weight (the exponent of 10000) and the value of the first base-10000 digit of
  each operand, and on their display scales: it gives at least 16 significant digits and
  at least the scale of either operand.
\<close>

definition NBASE :: int where
  "NBASE = 10000"

definition DEC_DIGITS :: int where
  "DEC_DIGITS = 4"

definition NUMERIC_MIN_SIG_DIGITS :: int where
  "NUMERIC_MIN_SIG_DIGITS = 16"

definition NUMERIC_MIN_DISPLAY_SCALE :: int where
  "NUMERIC_MIN_DISPLAY_SCALE = 0"

definition NUMERIC_MAX_DISPLAY_SCALE :: int where
  "NUMERIC_MAX_DISPLAY_SCALE = 1000"

record numeric_var =
  weight :: int
  firstdigit :: int
  dscale :: int

text \<open>The weight of the first base-10000 digit of a positive whole number.\<close>

function nbase_weight :: "int \<Rightarrow> nat" where
  "nbase_weight m = (if m < NBASE then 0 else Suc (nbase_weight (m div NBASE)))"
  by pat_completeness auto
termination
  by (relation "measure nat") (auto simp: NBASE_def)

declare nbase_weight.simps [simp del]

text \<open>
  What \<^verbatim>\<open>select_div_scale\<close> reads of \<^verbatim>\<open>EXTRACT(EPOCH FROM i)\<close>, that is of
  \<open>\<bar>i\<bar> / 1000000\<close> with scale 6: below 1 the first non-zero digit is one of the two
  base-10000 digits after the point; zero has weight 0 and first digit 0.
\<close>

definition epoch_var :: "interval \<Rightarrow> numeric_var" where
  "epoch_var i =
     (let n = \<bar>i\<bar> in
      if n = 0 then \<lparr>weight = 0, firstdigit = 0, dscale = 6\<rparr>
      else if n < 100 then \<lparr>weight = - 2, firstdigit = n * 100, dscale = 6\<rparr>
      else if n < 1000000 then \<lparr>weight = - 1, firstdigit = n div 100, dscale = 6\<rparr>
      else \<lparr>weight = int (nbase_weight (n div 1000000)),
            firstdigit = (n div 1000000) div NBASE ^ nbase_weight (n div 1000000),
            dscale = 6\<rparr>)"

text \<open>The integer literal \<^verbatim>\<open>3600\<close>, cast to \<^verbatim>\<open>numeric\<close>.\<close>

definition integer_3600_var :: numeric_var where
  "integer_3600_var = \<lparr>weight = 0, firstdigit = 3600, dscale = 0\<rparr>"

definition select_div_scale :: "numeric_var \<Rightarrow> numeric_var \<Rightarrow> nat" where
  "select_div_scale var1 var2 =
     (let qweight = weight var1 - weight var2
            - (if firstdigit var1 \<le> firstdigit var2 then 1 else 0);
          rscale = NUMERIC_MIN_SIG_DIGITS - qweight * DEC_DIGITS;
          rscale = max rscale (dscale var1);
          rscale = max rscale (dscale var2);
          rscale = max rscale NUMERIC_MIN_DISPLAY_SCALE;
          rscale = min rscale NUMERIC_MAX_DISPLAY_SCALE
      in nat rscale)"

text \<open>\<^verbatim>\<open>EXTRACT(EPOCH FROM i) / 3600\<close>: the quotient, rounded to the scale chosen.\<close>

definition epoch_div_3600 :: "interval \<Rightarrow> rat" where
  "epoch_div_3600 i =
     sql_round (extract_epoch i / 3600) (select_div_scale (epoch_var i) integer_3600_var)"

definition interval_hours_case :: "timestamp option \<Rightarrow> timestamp option \<Rightarrow> rat option" where
  "interval_hours_case resp reg =
     (case (resp, reg) of
        (Some a, Some b) \<Rightarrow> Some (sql_round (epoch_div_3600 (a - b)) 2)
      | _ \<Rightarrow> None)"

record v_response_first_row = shift_request_row +
  interval_hours :: "rat option"

definition v_response_first_select :: "shift_request_row \<Rightarrow> v_response_first_row" where
  "v_response_first_select r =
     \<lparr>id_client = id_client r, date_request = date_request r,
      date_response = date_response r, manager = manager r,
      date_registration = date_registration r,
      interval_hours = interval_hours_case (date_response r) (date_registration r)\<rparr>"

definition v_response_first ::
  "string list \<Rightarrow> all_raw_row list \<Rightarrow> dict_calendar_row list \<Rightarrow> v_response_first_row list" where
  "v_response_first source_list all_raw dict_calendar =
     map v_response_first_select
       (shift_request dict_calendar (first_response source_list all_raw))"

section \<open>Step 5: the view of the dashboard\<close>

record dict_candidate_row =
  ID :: nat
  cand_id_client :: nat
  cand_date_request :: timestamp
  cand_source_client :: string

record dash_row =
  dash_id_client :: nat
  response_status :: string
  dash_date_request :: timestamp
  dash_date_registration :: "timestamp option"
  dash_date_response :: "timestamp option"
  dash_interval_hours :: "rat option"
  dash_manager :: "string option"

text \<open>\<^verbatim>\<open>FROM dict_candidate dc LEFT JOIN v_response_first vrf ON vrf.id_client = dc."ID"\<close>\<close>

definition left_join_v_response_first ::
  "v_response_first_row list \<Rightarrow> dict_candidate_row
     \<Rightarrow> (dict_candidate_row \<times> v_response_first_row option) list" where
  "left_join_v_response_first vrfs dc =
     (case filter (\<lambda>vrf. id_client vrf = ID dc) vrfs of
        [] \<Rightarrow> [(dc, None)]
      | ms \<Rightarrow> map (\<lambda>vrf. (dc, Some vrf)) ms)"

definition dash_select :: "dict_candidate_row \<times> v_response_first_row option \<Rightarrow> dash_row" where
  "dash_select j =
     (case j of (dc, vrf) \<Rightarrow>
       \<lparr>dash_id_client = cand_id_client dc,
        response_status =
          (if Option.bind vrf date_response = None then ''wait'' else ''done''),
        dash_date_request = cand_date_request dc,
        dash_date_registration = Option.bind vrf date_registration,
        dash_date_response = Option.bind vrf date_response,
        dash_interval_hours = Option.bind vrf interval_hours,
        dash_manager = map_option manager vrf\<rparr>)"

definition dash_client_service_view ::
  "string list \<Rightarrow> all_raw_row list \<Rightarrow> dict_calendar_row list \<Rightarrow> dict_candidate_row list
     \<Rightarrow> dash_row list" where
  "dash_client_service_view source_list all_raw dict_calendar dict_candidate =
     map dash_select
       (filter (\<lambda>j. cand_source_client (fst j) \<in> set source_list)
          (concat (map (left_join_v_response_first
                          (v_response_first source_list all_raw dict_calendar))
                       dict_candidate)))"

section \<open>What the specification calls the next working date\<close>

text \<open>
  The specification's words: the earliest date of the calendar that is marked working and
  lies strictly after the date \<open>d0\<close>.
\<close>

definition earliest_working_after :: "dict_calendar_row list \<Rightarrow> date \<Rightarrow> date \<Rightarrow> bool" where
  "earliest_working_after dict_calendar d0 d =
     (d0 < d \<and> (\<exists>c\<in>set dict_calendar. date_calendar c = d \<and> is_working c = 1)
      \<and> (\<forall>c\<in>set dict_calendar. d0 < date_calendar c \<and> is_working c = 1 \<longrightarrow> d \<le> date_calendar c))"

section \<open>What the specification calls rounding to two places\<close>

text \<open>
  The specification's words: \<open>h\<close> is \<open>x\<close> rounded to 2 decimal places when \<open>h\<close> is a whole
  number of hundredths and lies within half a hundredth of \<open>x\<close>.
\<close>

definition rounded_to_2_places :: "rat \<Rightarrow> rat \<Rightarrow> bool" where
  "rounded_to_2_places x h = (h * 100 = of_int \<lfloor>h * 100\<rfloor> \<and> \<bar>h - x\<bar> \<le> 1 / 200)"

section \<open>Example data\<close>

text \<open>
  Sunday 13 to Monday 21 January 2019 (days 6952 to 6960), Saturdays and Sundays
  non-working, and a row of \<^verbatim>\<open>all_response\<close> for a request at a given time.
\<close>

definition at_time :: "date \<Rightarrow> int \<Rightarrow> int \<Rightarrow> timestamp" where
  "at_time d h m = d * USECS_PER_DAY + h * USECS_PER_HOUR + m * 60000000"

definition calendar_day :: "date \<Rightarrow> int \<Rightarrow> dict_calendar_row" where
  "calendar_day d w = \<lparr>date_calendar = d, is_working = w\<rparr>"

definition january_2019 :: "dict_calendar_row list" where
  "january_2019 =
     [calendar_day 6952 0, calendar_day 6953 1, calendar_day 6954 1, calendar_day 6955 1,
      calendar_day 6956 1, calendar_day 6957 1, calendar_day 6958 0, calendar_day 6959 0,
      calendar_day 6960 1]"

definition numbered_first :: "timestamp \<Rightarrow> timestamp option \<Rightarrow> all_response_row" where
  "numbered_first req resp =
     \<lparr>id_client = 7, date_request = req, date_response = resp, manager = ''manager 1'',
      rn = 1\<rparr>"

text \<open>
  Rows of \<^verbatim>\<open>all_raw\<close> and \<^verbatim>\<open>dict_candidate\<close>; a log in which client 7 has two
  responses at the same time, client 8 no response and client 9 a source outside the list.
\<close>

definition logged ::
  "nat \<Rightarrow> timestamp \<Rightarrow> timestamp option \<Rightarrow> string \<Rightarrow> string \<Rightarrow> string \<Rightarrow> all_raw_row" where
  "logged c req resp m a s =
     \<lparr>id_client = c, date_request = req, date_response = resp, manager = m,
      action_manager = a, source_client = s\<rparr>"

definition candidate :: "nat \<Rightarrow> timestamp \<Rightarrow> string \<Rightarrow> dict_candidate_row" where
  "candidate c req s =
     \<lparr>ID = c, cand_id_client = c, cand_date_request = req, cand_source_client = s\<rparr>"

definition tied_log :: "all_raw_row list" where
  "tied_log =
     [logged 7 (at_time 6954 14 0) (Some (at_time 6954 16 30)) ''manager 1'' ''response''
        ''source 1'',
      logged 7 (at_time 6954 15 0) (Some (at_time 6954 16 30)) ''manager 2'' ''response''
        ''source 2'',
      logged 8 (at_time 6954 15 0) (Some (at_time 6954 16 0)) ''manager 2'' ''call''
        ''source 1'',
      logged 9 (at_time 6954 15 0) (Some (at_time 6954 16 0)) ''manager 2'' ''response''
        ''source 9'']"

section \<open>Lemmas on the building blocks\<close>

lemmas sql_defs = sql_or_def sql_and_def sql_eq_def sql_neq_def sql_gt_def sql_lt_def
  sql_cmp_def is_true_def

lemmas fixture_defs = at_time_def calendar_day_def january_2019_def numbered_first_def
  USECS_PER_DAY_def USECS_PER_HOUR_def time_09_def time_20_def cast_date_def cast_time_def
  extract_dow_def first_response_select_def left_join_calendar_def date_plus_interval_def
  interval_9_hours_def interval_1_days_9_hours_def

lemma sql_min_None: "sql_min xs = None \<longleftrightarrow> xs = []"
  by (simp add: sql_min_def split: list.splits)

lemma sql_min_Some:
  assumes "sql_min xs = Some m"
  shows "m \<in> set xs \<and> (\<forall>x\<in>set xs. m \<le> x)"
proof -
  from assms obtain y ys where xs: "xs = y # ys" and m: "m = fold min ys y"
    by (auto simp: sql_min_def split: list.splits)
  have "m = Min (set xs)"
    unfolding xs m by (rule Min.set_eq_fold [symmetric])
  moreover have "set xs \<noteq> {}"
    using xs by simp
  ultimately show ?thesis
    by (simp add: Min_le)
qed

lemma next_working_None:
  "next_working cal d = None \<longleftrightarrow> \<not> (\<exists>c\<in>set cal. date_calendar c > d \<and> is_working c = 1)"
  by (auto simp: next_working_def sql_min_None filter_empty_conv)

lemma next_working_Some:
  assumes "next_working cal d = Some m"
  shows "earliest_working_after cal d m"
  using sql_min_Some [OF assms [unfolded next_working_def]]
  by (auto simp: earliest_working_after_def)

lemma registration_select [simp]:
  "date_registration (shift_request_select cal (fr, dc)) = date_registration_case cal fr dc"
  by (simp add: shift_request_select_def)

text \<open>The branches of the \<^verbatim>\<open>CASE\<close>, one lemma for each.\<close>

lemma case_rule1:
  assumes "is_working dc = 0 \<or> (is_working dc = 1 \<and> dow fr = 5 \<and> time_20 < time_req fr)"
  shows "date_registration_case cal fr (Some dc) =
           map_option (\<lambda>d. date_plus_interval d interval_9_hours)
             (next_working cal (date_req fr))"
  using assms by (auto simp: date_registration_case_def sql_defs)

lemma case_rule2:
  assumes "is_working dc = 1" and "time_req fr < time_09"
  shows "date_registration_case cal fr (Some dc) =
           Some (date_plus_interval (date_req fr) interval_9_hours)"
  using assms
  by (auto simp: date_registration_case_def sql_defs time_09_def time_20_def USECS_PER_HOUR_def)

lemma case_rule3:
  assumes "is_working dc = 1" and "dow fr \<noteq> 5" and "time_20 < time_req fr"
  shows "date_registration_case cal fr (Some dc) =
           Some (date_plus_interval (date_req fr) interval_1_days_9_hours)"
  using assms
  by (auto simp: date_registration_case_def sql_defs time_09_def time_20_def USECS_PER_HOUR_def)

lemma case_else:
  assumes "is_working dc \<noteq> 0"
      and "is_working dc = 1 \<longrightarrow> time_09 \<le> time_req fr \<and> time_req fr \<le> time_20"
  shows "date_registration_case cal fr (Some dc) = Some (date_request fr)"
  using assms by (auto simp: date_registration_case_def sql_defs)

lemma case_miss: "date_registration_case cal fr None = Some (date_request fr)"
  by (simp add: date_registration_case_def sql_defs)

lemma shift_request_single:
  "shift_request cal [fr] = map (shift_request_select cal) (left_join_calendar cal fr)"
  by (simp add: shift_request_def)

lemma left_join_calendar_miss:
  assumes "\<forall>c\<in>set cal. date_calendar c \<noteq> date_req fr"
  shows "left_join_calendar cal fr = [(fr, None)]"
proof -
  have "filter (\<lambda>dc. date_req fr = date_calendar dc) cal = []"
    using assms by (auto simp: filter_empty_conv)
  then show ?thesis by (simp add: left_join_calendar_def)
qed

lemma left_join_calendar_Some:
  assumes "(fr', Some dc) \<in> set (left_join_calendar cal fr)"
  shows "fr' = fr \<and> dc \<in> set cal \<and> date_calendar dc = date_req fr"
proof (cases "filter (\<lambda>dc. date_req fr = date_calendar dc) cal")
  case Nil
  then show ?thesis using assms by (simp add: left_join_calendar_def)
next
  case (Cons a as)
  have "set (a # as) = set (filter (\<lambda>dc. date_req fr = date_calendar dc) cal)"
    using Cons by simp
  then have *: "set (a # as) = {x \<in> set cal. date_req fr = date_calendar x}" by simp
  have "set (left_join_calendar cal fr) = (\<lambda>dc. (fr, Some dc)) ` set (a # as)"
    unfolding left_join_calendar_def Cons list.case by simp
  then show ?thesis using assms unfolding * by auto
qed

lemma left_join_calendar_fst:
  assumes "j \<in> set (left_join_calendar cal fr)"
  shows "fst j = fr"
  using assms by (auto simp: left_join_calendar_def split: list.splits)

text \<open>Every row of \<^verbatim>\<open>shift_request\<close> is the selection from a joined pair, and every row
  of \<^verbatim>\<open>first_response\<close> carries the day of week, date and time of its own request.\<close>

lemma shift_request_rows:
  "row \<in> set (shift_request cal frs) \<longleftrightarrow>
     (\<exists>fr\<in>set frs. \<exists>j\<in>set (left_join_calendar cal fr). row = shift_request_select cal j)"
  by (auto simp: shift_request_def)

lemma first_response_rows:
  "fr \<in> set (first_response source_list all_raw) \<Longrightarrow>
     \<exists>r\<in>set (all_response source_list all_raw). rn r = 1 \<and> fr = first_response_select r"
  by (auto simp: first_response_def)

lemma time_bounds: "0 \<le> cast_time t \<and> cast_time t < USECS_PER_DAY"
  by (simp add: cast_time_def USECS_PER_DAY_def USECS_PER_HOUR_def)

lemma timestamp_split: "t = date_plus_interval (cast_date t) (cast_time t)"
  by (simp add: date_plus_interval_def cast_date_def cast_time_def)

lemmas pipeline_defs = dash_client_service_view_def v_response_first_def shift_request_def
  first_response_def all_response_def all_response_where_def row_number_partition_def
  nulls_last_def all_response_select_def shift_request_select_def date_registration_case_def
  next_working_def sql_min_def v_response_first_select_def interval_hours_case_def
  left_join_v_response_first_def dash_select_def

text \<open>Rounding.\<close>

lemma sql_round_2: "rounded_to_2_places x (sql_round x 2)"
proof -
  define k where "k = \<lfloor>\<bar>x\<bar> * 100 + 1 / 2\<rfloor>"
  have r: "sql_round x 2 = sgn x * of_int k / 100"
    by (simp add: sql_round_def k_def)
  have k1: "of_int k \<le> \<bar>x\<bar> * 100 + 1 / 2"
    unfolding k_def by linarith
  have k2: "\<bar>x\<bar> * 100 + 1 / 2 < of_int k + 1"
    unfolding k_def by linarith
  consider "x < 0" | "x = 0" | "x > 0"
    by linarith
  then show ?thesis
  proof cases
    case 1
    then have h: "sql_round x 2 = of_int (- k) / 100"
      using r by simp
    have "sql_round x 2 * 100 = of_int (- k)"
      using h by simp
    moreover have "\<bar>sql_round x 2 - x\<bar> \<le> 1 / 200"
      using h k1 k2 1 by (simp add: abs_if field_simps)
    ultimately show ?thesis
      unfolding rounded_to_2_places_def by (simp del: of_int_minus)
  next
    case 2
    then show ?thesis
      by (simp add: sql_round_def rounded_to_2_places_def)
  next
    case 3
    then have h: "sql_round x 2 = of_int k / 100"
      using r by simp
    have "sql_round x 2 * 100 = of_int k"
      using h by simp
    moreover have "\<bar>sql_round x 2 - x\<bar> \<le> 1 / 200"
      using h k1 k2 3 by (simp add: abs_if field_simps)
    ultimately show ?thesis
      unfolding rounded_to_2_places_def by simp
  qed
qed

lemma double_round_floor:
  fixes N H :: int
  assumes N: "0 \<le> N" and H: "50000000 \<le> H"
  shows "\<lfloor>(of_int \<lfloor>(of_int N / 36000000 :: rat) * (2 * of_int H) + 1 / 2\<rfloor> :: rat) / (2 * of_int H) + 1 / 2\<rfloor>
         = \<lfloor>(of_int N / 36000000 :: rat) + 1 / 2\<rfloor>"
proof -
  define y :: rat where "y = of_int N / 36000000"
  define K where "K = \<lfloor>y + 1 / 2\<rfloor>"
  define J where "J = \<lfloor>y * (2 * of_int H) + 1 / 2\<rfloor>"
  have Hpos: "(0::rat) < of_int H" using H by simp
  have K1: "of_int K \<le> y + 1 / 2" and K2: "y + 1 / 2 < of_int K + 1"
    unfolding K_def by linarith+
  \<comment> \<open>lower bound\<close>
  have "(of_int K - 1 / 2) * (2 * of_int H) \<le> y * (2 * of_int H)"
    using K1 Hpos by (intro mult_right_mono) auto
  then have "of_int ((2 * K - 1) * H) \<le> y * (2 * of_int H) + 1 / 2"
    by (simp add: algebra_simps)
  then have L: "(2 * K - 1) * H \<le> J"
    unfolding J_def by (simp add: le_floor_iff)
  \<comment> \<open>upper bound\<close>
  have "of_int N < (of_int (18000000 * (2 * K + 1)) :: rat)"
    using K2 by (simp add: y_def field_simps)
  then have "N < 18000000 * (2 * K + 1)"
    by (simp only: of_int_less_iff)
  then have "N + 1 \<le> 18000000 * (2 * K + 1)" by simp
  then have "(of_int (N + 1) :: rat) \<le> of_int (18000000 * (2 * K + 1))"
    by (simp only: of_int_le_iff)
  then have y2: "y \<le> of_int K + 1 / 2 - 1 / 36000000"
    by (simp add: y_def field_simps)
  have "y * (2 * of_int H) \<le> (of_int K + 1 / 2 - 1 / 36000000) * (2 * of_int H)"
    using y2 Hpos by (intro mult_right_mono) auto
  moreover have "(of_int H :: rat) / 18000000 > 1 / 2"
    using H by (simp add: field_simps)
  ultimately have "y * (2 * of_int H) + 1 / 2 < of_int ((2 * K + 1) * H)"
    by (simp add: algebra_simps)
  then have U: "J < (2 * K + 1) * H"
    unfolding J_def by (simp add: floor_less_iff)
  \<comment> \<open>conclusion\<close>
  have "of_int ((2 * K - 1) * H) \<le> (of_int J :: rat)" using L by (simp only: of_int_le_iff)
  then have c1: "of_int K \<le> (of_int J :: rat) / (2 * of_int H) + 1 / 2"
    using Hpos by (simp add: field_simps)
  have "(of_int J :: rat) < of_int ((2 * K + 1) * H)" using U by (simp only: of_int_less_iff)
  then have c2: "(of_int J :: rat) / (2 * of_int H) + 1 / 2 < of_int K + 1"
    using Hpos by (simp add: field_simps)
  have "\<lfloor>(of_int J :: rat) / (2 * of_int H) + 1 / 2\<rfloor> = K"
    using c1 c2 by (intro floor_unique) auto
  then show ?thesis unfolding J_def K_def y_def .
qed

lemma sql_round_abs: "\<bar>sql_round x n\<bar> = of_int \<lfloor>\<bar>x\<bar> * 10 ^ n + 1 / 2\<rfloor> / 10 ^ n"
proof -
  have "0 \<le> \<lfloor>\<bar>x\<bar> * 10 ^ n + 1 / 2\<rfloor>" by (simp add: zero_le_floor)
  moreover have "\<lfloor>(1 / 2 :: rat)\<rfloor> = 0" by linarith
  ultimately show ?thesis
    by (cases "x = 0") (simp_all add: sql_round_def abs_mult abs_sgn_eq)
qed

lemma sql_round_error: "\<bar>sql_round x n - x\<bar> \<le> 1 / (2 * 10 ^ n)"
proof -
  define P :: rat where "P = 10 ^ n"
  define k where "k = \<lfloor>\<bar>x\<bar> * P + 1 / 2\<rfloor>"
  have P: "0 < P" by (simp add: P_def)
  have k1: "of_int k \<le> \<bar>x\<bar> * P + 1 / 2" and k2: "\<bar>x\<bar> * P + 1 / 2 < of_int k + 1"
    unfolding k_def by linarith+
  have "of_int k / P \<le> \<bar>x\<bar> + 1 / (2 * P)"
    using k1 P by (simp add: field_simps)
  moreover have "\<bar>x\<bar> - 1 / (2 * P) \<le> of_int k / P"
  proof -
    have "\<bar>x\<bar> \<le> (of_int k + 1 / 2) / P"
      using k2 P by (simp add: pos_le_divide_eq)
    moreover have "(of_int k + 1 / 2) / P = of_int k / P + 1 / (2 * P)"
      by (simp add: add_divide_distrib)
    ultimately show ?thesis by linarith
  qed
  ultimately have d: "\<bar>of_int k / P - \<bar>x\<bar>\<bar> \<le> 1 / (2 * P)"
    by linarith
  have "sql_round x n - x = sgn x * (of_int k / P - \<bar>x\<bar>)"
    using sgn_mult_abs [of x] by (simp add: sql_round_def P_def k_def algebra_simps)
  then have "\<bar>sql_round x n - x\<bar> = \<bar>sgn x\<bar> * \<bar>of_int k / P - \<bar>x\<bar>\<bar>"
    by (simp add: abs_mult)
  also have "\<dots> \<le> \<bar>of_int k / P - \<bar>x\<bar>\<bar>"
    by (cases "x = 0") (simp_all add: abs_sgn_eq)
  finally show ?thesis using d by (simp add: P_def)
qed

text \<open>The scale of the quotient: at least 6, and at least 12 for an interval under
  360100000000 seconds.\<close>

lemma nbase_weight_small: "m < 10000 \<Longrightarrow> nbase_weight m = 0"
  by (subst nbase_weight.simps) (simp add: NBASE_def)

lemma nbase_weight_step: "10000 \<le> m \<Longrightarrow> nbase_weight m = Suc (nbase_weight (m div 10000))"
  by (subst nbase_weight.simps) (simp add: NBASE_def)

lemma nbase_weight_le_2:
  assumes "m < 1000000000000"
  shows "nbase_weight m \<le> 2 \<and> (nbase_weight m = 2 \<longrightarrow> 100000000 \<le> m)"
proof (cases "m < 10000")
  case True
  then show ?thesis by (simp add: nbase_weight_small)
next
  case False
  show ?thesis
  proof (cases "m < 100000000")
    case True
    then have "m div 10000 < 10000" by simp
    then show ?thesis using False by (simp add: nbase_weight_step nbase_weight_small)
  next
    case b: False
    then have "10000 \<le> m div 10000" by simp
    moreover have "m div 10000 div 10000 < 10000" using assms by simp
    ultimately show ?thesis using False b by (simp add: nbase_weight_step nbase_weight_small)
  qed
qed

lemma dscale_epoch_var [simp]: "dscale (epoch_var i) = 6"
  by (simp add: epoch_var_def Let_def)

lemma select_div_scale_epoch:
  "select_div_scale (epoch_var i) integer_3600_var
     = nat (min (max (16 - 4 * (weight (epoch_var i)
                  - (if firstdigit (epoch_var i) \<le> 3600 then 1 else 0))) 6) 1000)"
  unfolding select_div_scale_def Let_def
  by (auto simp: integer_3600_var_def NUMERIC_MIN_DISPLAY_SCALE_def
      NUMERIC_MAX_DISPLAY_SCALE_def NUMERIC_MIN_SIG_DIGITS_def DEC_DIGITS_def max_def min_def
      algebra_simps)

lemma select_div_scale_ge_6: "6 \<le> select_div_scale (epoch_var i) integer_3600_var"
  unfolding select_div_scale_epoch by (auto simp: max_def min_def)

lemma epoch_var_small:
  "\<bar>i\<bar> < 1000000 \<Longrightarrow> weight (epoch_var i) \<le> 0"
  by (simp add: epoch_var_def Let_def)

lemma epoch_var_large:
  "1000000 \<le> \<bar>i\<bar> \<Longrightarrow>
     weight (epoch_var i) = int (nbase_weight (\<bar>i\<bar> div 1000000))
     \<and> firstdigit (epoch_var i)
         = (\<bar>i\<bar> div 1000000) div NBASE ^ nbase_weight (\<bar>i\<bar> div 1000000)"
  by (auto simp: epoch_var_def Let_def)

lemma qweight_le_1:
  assumes "\<bar>i\<bar> < 360100000000000000"
  shows "weight (epoch_var i) - (if firstdigit (epoch_var i) \<le> 3600 then 1 else 0) \<le> 1"
proof (cases "\<bar>i\<bar> < 1000000")
  case True
  then show ?thesis using epoch_var_small [of i] by simp
next
  case False
  define m where "m = \<bar>i\<bar> div 1000000"
  have ev: "weight (epoch_var i) = int (nbase_weight m)"
    "firstdigit (epoch_var i) = m div NBASE ^ nbase_weight m"
    using epoch_var_large [of i] False by (simp_all add: m_def)
  have m: "m < 360100000000" using assms by (simp add: m_def)
  then have w: "nbase_weight m \<le> 2"
    using nbase_weight_le_2 [of m] by simp
  show ?thesis
  proof (cases "nbase_weight m = 2")
    case True
    have "m div 100000000 \<le> 3600" using m by simp
    then have "firstdigit (epoch_var i) \<le> 3600"
      unfolding ev True by (simp add: NBASE_def)
    then show ?thesis unfolding ev(1) True by simp
  next
    case False
    then have "nbase_weight m \<le> 1" using w by simp
    then show ?thesis unfolding ev(1) by simp
  qed
qed

lemma select_div_scale_ge_12:
  assumes "\<bar>i\<bar> < 360100000000000000"
  shows "12 \<le> select_div_scale (epoch_var i) integer_3600_var"
  unfolding select_div_scale_epoch using qweight_le_1 [OF assms]
  by (auto simp: max_def min_def split: if_splits)

text \<open>Rounding to 10 places or more and then to 2 is rounding to 2, for a multiple of
  \<open>1 / 3600000000\<close>.\<close>

lemma power_10_split:
  assumes "10 \<le> n"
  shows "\<exists>H::int. 50000000 \<le> H \<and> (10::rat) ^ n = 100 * (2 * of_int H)"
proof -
  obtain k where n: "n = 10 + k"
    using assms le_Suc_ex by blast
  have "(1::int) \<le> 10 ^ k" by simp
  then have "(50000000::int) \<le> 50000000 * 10 ^ k" by simp
  moreover have "(10::rat) ^ n = 100 * (2 * of_int (50000000 * 10 ^ k))"
    by (simp add: n power_add)
  ultimately show ?thesis by blast
qed

lemma sgn_sql_round: "sql_round x n \<noteq> 0 \<Longrightarrow> sgn (sql_round x n) = sgn x"
proof -
  assume nz: "sql_round x n \<noteq> 0"
  define c :: rat where "c = of_int \<lfloor>\<bar>x\<bar> * 10 ^ n + 1 / 2\<rfloor> / 10 ^ n"
  have r: "sql_round x n = sgn x * c"
    by (simp add: sql_round_def c_def)
  have "0 \<le> c"
    unfolding c_def by (simp add: zero_le_floor)
  moreover have "c \<noteq> 0"
    using nz r by auto
  ultimately have "0 < c" by linarith
  then have "sgn c = 1" by simp
  then show ?thesis unfolding r by (simp add: sgn_mult)
qed

lemma double_round:
  assumes "10 \<le> n"
  shows "sql_round (sql_round (of_int i / 3600000000) n) 2 = sql_round (of_int i / 3600000000) 2"
proof -
  define q :: rat where "q = of_int i / 3600000000"
  define q' where "q' = sql_round q n"
  obtain H :: int where H: "50000000 \<le> H" "(10::rat) ^ n = 100 * (2 * of_int H)"
    using power_10_split [OF assms] by blast
  have Hpos: "(0::rat) < of_int H" using H(1) by simp
  define y :: rat where "y = of_int \<bar>i\<bar> / 36000000"
  have y: "\<bar>q\<bar> * 100 = y"
    by (simp add: q_def y_def)
  have yn: "\<bar>q\<bar> * 10 ^ n = y * (2 * of_int H)"
    unfolding H(2) y [symmetric] by simp
  define J where "J = \<lfloor>y * (2 * of_int H) + 1 / 2\<rfloor>"
  have "\<bar>q'\<bar> = of_int J / 10 ^ n"
    unfolding q'_def sql_round_abs yn J_def ..
  then have a: "\<bar>q'\<bar> * 100 = of_int J / (2 * of_int H)"
    unfolding H(2) by simp
  have fl: "\<lfloor>\<bar>q'\<bar> * 100 + 1 / 2\<rfloor> = \<lfloor>\<bar>q\<bar> * 100 + 1 / 2\<rfloor>"
    unfolding a y J_def y_def by (rule double_round_floor) (use H(1) in simp_all)
  have r': "sql_round q' 2 = sgn q' * of_int \<lfloor>\<bar>q\<bar> * 100 + 1 / 2\<rfloor> / 100"
    using fl by (simp add: sql_round_def)
  have r: "sql_round q 2 = sgn q * of_int \<lfloor>\<bar>q\<bar> * 100 + 1 / 2\<rfloor> / 100"
    by (simp add: sql_round_def)
  show ?thesis
  proof (cases "q' = 0")
    case True
    then have "\<lfloor>\<bar>q\<bar> * 100 + 1 / 2\<rfloor> = \<lfloor>(1 / 2 :: rat)\<rfloor>"
      using fl by simp
    moreover have "\<lfloor>(1 / 2 :: rat)\<rfloor> = 0" by linarith
    ultimately show ?thesis
      using r r' by (simp add: q_def q'_def)
  next
    case False
    then have "sgn q' = sgn q"
      unfolding q'_def by (rule sgn_sql_round)
    then show ?thesis using r r' by (simp add: q_def q'_def)
  qed
qed

lemma epoch_div_3600_exact:
  assumes "\<bar>i\<bar> < 360100000000000000"
  shows "sql_round (epoch_div_3600 i) 2 = sql_round (extract_epoch i / 3600) 2"
proof -
  have e: "extract_epoch i / 3600 = of_int i / 3600000000"
    by (simp add: extract_epoch_def)
  have "10 \<le> select_div_scale (epoch_var i) integer_3600_var"
    using select_div_scale_ge_12 [OF assms] by simp
  then show ?thesis
    unfolding epoch_div_3600_def e by (rule double_round)
qed

lemma epoch_div_3600_error:
  "\<bar>epoch_div_3600 i - extract_epoch i / 3600\<bar> \<le> 1 / 2000000"
proof -
  define n where "n = select_div_scale (epoch_var i) integer_3600_var"
  have "6 \<le> n" unfolding n_def by (rule select_div_scale_ge_6)
  then have "(10::rat) ^ 6 \<le> 10 ^ n"
    by (intro power_increasing) simp_all
  then have "1 / (2 * (10::rat) ^ n) \<le> 1 / 2000000"
    by (simp add: field_simps)
  moreover have "\<bar>epoch_div_3600 i - extract_epoch i / 3600\<bar> \<le> 1 / (2 * 10 ^ n)"
    unfolding epoch_div_3600_def n_def by (rule sql_round_error)
  ultimately show ?thesis by linarith
qed

lemma round_minus_22_hours: "sql_round (epoch_div_3600 (- 79200000000)) 2 = - 22"
  by code_simp

lemma round_far_response:
  "sql_round (epoch_div_3600 3600000000017999999) 2 = 100000000001 / 100"
  by code_simp

text \<open>Row numbers: of the rows of one client, exactly the first has \<open>rn = 1\<close>.\<close>

lemma rn_select [simp]: "rn (all_response_select (n, r)) = n"
  and id_client_select [simp]: "id_client (all_response_select (n, r)) = id_client r"
  by (simp_all add: all_response_select_def)

lemma filter_rn_enumerate_above:
  "Suc 0 < n \<Longrightarrow>
     filter (\<lambda>r. rn r = Suc 0) (map all_response_select (enumerate n xs)) = []"
  by (induction xs arbitrary: n) auto

lemma filter_rn_enumerate:
  "filter (\<lambda>r. rn r = 1) (map all_response_select (enumerate 1 xs)) =
     (case xs of [] \<Rightarrow> [] | x # _ \<Rightarrow> [all_response_select (1, x)])"
  by (cases xs) (simp_all add: filter_rn_enumerate_above)

lemma first_of_partition:
  assumes "c \<in> id_client ` set sel"
  shows "\<exists>x. filter (\<lambda>r. rn r = 1) (row_number_partition sel c) = [x] \<and> id_client x = c"
proof -
  let ?p = "sort_key (\<lambda>r. nulls_last (date_response r)) (filter (\<lambda>r. id_client r = c) sel)"
  have "set ?p = {r \<in> set sel. id_client r = c}"
    by simp
  with assms have "set ?p \<noteq> {}"
    by auto
  then obtain x xs where p: "?p = x # xs"
    by (cases ?p) auto
  then have "x \<in> set ?p"
    by simp
  then have "id_client x = c"
    by simp
  then show ?thesis
    unfolding row_number_partition_def filter_rn_enumerate p by simp
qed

lemma count_concat_singletons:
  assumes "distinct cs"
      and "\<forall>c'\<in>set cs. \<exists>x. g c' = [x] \<and> key x = c'"
  shows "length (filter (\<lambda>x. key x = c) (concat (map g cs))) = (if c \<in> set cs then 1 else 0)"
  using assms
proof (induction cs)
  case Nil
  then show ?case by simp
next
  case (Cons a cs)
  from Cons.prems obtain x where x: "g a = [x]" "key x = a"
    by auto
  have "length (filter (\<lambda>x. key x = c) (concat (map g cs))) = (if c \<in> set cs then 1 else 0)"
    using Cons by simp
  then show ?case
    using x Cons.prems(1) by auto
qed

lemma filter_first_response:
  "filter (\<lambda>fr. id_client fr = c) (first_response source_list all_raw) =
     map first_response_select
       (filter (\<lambda>r. id_client r = c)
          (concat (map (\<lambda>c'. filter (\<lambda>r. rn r = 1)
                     (row_number_partition (filter (all_response_where source_list) all_raw) c'))
             (remdups (map id_client (filter (all_response_where source_list) all_raw))))))"
  by (simp add: first_response_def all_response_def Let_def filter_map o_def
      first_response_select_def filter_concat)

section \<open>The claims\<close>

text \<open>
  C1, as stated, fails. A request on Saturday 19 January at 10:00, with a calendar that
  marks that Saturday non-working and has no later date: the request falls under rule 1,
  no working date follows, and \<^verbatim>\<open>date_registration\<close> is NULL, not 09:00 on any date.
\<close>

theorem rule1_exhausted_counterexample:
  "left_join_calendar [calendar_day 6958 0]
       (first_response_select (numbered_first (at_time 6958 10 0) None))
     = [(first_response_select (numbered_first (at_time 6958 10 0) None),
         Some (calendar_day 6958 0))]
   \<and> is_working (calendar_day 6958 0) = 0
   \<and> next_working [calendar_day 6958 0]
        (cast_date (date_request (numbered_first (at_time 6958 10 0) None))) = None
   \<and> date_registration (shift_request_select [calendar_day 6958 0]
        (first_response_select (numbered_first (at_time 6958 10 0) None),
         Some (calendar_day 6958 0))) = None"
  by (simp add: fixture_defs date_registration_case_def sql_defs next_working_def sql_min_def)

text \<open>
  C1, amended. A request is joined with the calendar row \<open>dc\<close> of its date. When that row
  is non-working (\<open>is_working = 0\<close>), or is working while the request falls on a Friday
  strictly after 20:00, and the calendar has a working date after the request's date, then
  \<^verbatim>\<open>date_registration\<close> is 09:00 on the earliest working date of the calendar strictly
  after the request's date: that date is later than the request's and marked working.
\<close>

theorem rule1_next_working_day:
  assumes "(fr, Some dc) \<in> set (left_join_calendar cal fr)"
      and "fr = first_response_select r"
      and "is_working dc = 0
           \<or> (is_working dc = 1 \<and> extract_dow (date_request r) = 5
               \<and> time_20 < cast_time (date_request r))"
      and "\<exists>c\<in>set cal. cast_date (date_request r) < date_calendar c \<and> is_working c = 1"
  shows "\<exists>d. date_registration (shift_request_select cal (fr, Some dc))
               = Some (date_plus_interval d time_09)
             \<and> earliest_working_after cal (cast_date (date_request r)) d"
proof -
  have fr: "dow fr = extract_dow (date_request r)" "time_req fr = cast_time (date_request r)"
    "date_req fr = cast_date (date_request r)"
    using assms(2) by (simp_all add: first_response_select_def)
  from assms(4) obtain d where d: "next_working cal (cast_date (date_request r)) = Some d"
    using next_working_None [of cal "cast_date (date_request r)"]
    by (cases "next_working cal (cast_date (date_request r))") auto
  have "date_registration_case cal fr (Some dc) = Some (date_plus_interval d interval_9_hours)"
    using case_rule1 [of dc fr cal] assms(3) fr d by simp
  moreover have "earliest_working_after cal (cast_date (date_request r)) d"
    using next_working_Some [OF d] .
  ultimately show ?thesis
    by (auto simp: time_09_def interval_9_hours_def)
qed

text \<open>The specification's example: a request on Friday at 21:30 is registered on Monday
  at 09:00.\<close>

theorem rule1_next_working_day_witness:
  "(first_response_select (numbered_first (at_time 6957 21 30) None), Some (calendar_day 6957 1))
      \<in> set (left_join_calendar january_2019
                (first_response_select (numbered_first (at_time 6957 21 30) None)))
   \<and> is_working (calendar_day 6957 1) = 1
   \<and> extract_dow (date_request (numbered_first (at_time 6957 21 30) None)) = 5
   \<and> time_20 < cast_time (date_request (numbered_first (at_time 6957 21 30) None))
   \<and> (\<exists>d. date_registration (shift_request_select january_2019
              (first_response_select (numbered_first (at_time 6957 21 30) None),
               Some (calendar_day 6957 1)))
            = Some (date_plus_interval d time_09)
          \<and> earliest_working_after january_2019
               (cast_date (date_request (numbered_first (at_time 6957 21 30) None))) d)
   \<and> date_registration (shift_request_select january_2019
              (first_response_select (numbered_first (at_time 6957 21 30) None),
               Some (calendar_day 6957 1))) = Some (at_time 6960 9 0)"
proof -
  let ?r = "numbered_first (at_time 6957 21 30) None"
  let ?dc = "calendar_day 6957 1"
  have h1: "(first_response_select ?r, Some ?dc)
              \<in> set (left_join_calendar january_2019 (first_response_select ?r))"
    by (simp add: fixture_defs)
  have h3: "is_working ?dc = 1 \<and> extract_dow (date_request ?r) = 5
              \<and> time_20 < cast_time (date_request ?r)"
    by (simp add: fixture_defs)
  have h4: "\<exists>c\<in>set january_2019. cast_date (date_request ?r) < date_calendar c \<and> is_working c = 1"
    by (simp add: fixture_defs)
  have v: "date_registration (shift_request_select january_2019 (first_response_select ?r, Some ?dc))
             = Some (at_time 6960 9 0)"
    by (simp add: fixture_defs date_registration_case_def sql_defs next_working_def sql_min_def)
  from rule1_next_working_day [OF h1 refl disjI2 [OF h3] h4] h1 h3 v show ?thesis
    by blast
qed

text \<open>
  C5. A request joined with a working calendar row (\<open>is_working = 1\<close>) whose time of day
  lies between 09:00 and 20:00, both ends included, keeps its timestamp:
  \<^verbatim>\<open>date_registration\<close> is \<^verbatim>\<open>date_request\<close>.
\<close>

theorem business_hours_identity:
  assumes "(fr, Some dc) \<in> set (left_join_calendar cal fr)"
      and "fr = first_response_select r"
      and "is_working dc = 1"
      and "time_09 \<le> cast_time (date_request r)"
      and "cast_time (date_request r) \<le> time_20"
  shows "date_registration (shift_request_select cal (fr, Some dc)) = Some (date_request r)"
  using assms case_else [of dc fr cal] by (simp add: first_response_select_def)

text \<open>The upper end: a request on Tuesday at 20:00:00 exactly.\<close>

theorem business_hours_identity_witness:
  "(first_response_select (numbered_first (at_time 6954 20 0) None), Some (calendar_day 6954 1))
      \<in> set (left_join_calendar january_2019
                (first_response_select (numbered_first (at_time 6954 20 0) None)))
   \<and> is_working (calendar_day 6954 1) = 1
   \<and> time_09 \<le> cast_time (date_request (numbered_first (at_time 6954 20 0) None))
   \<and> cast_time (date_request (numbered_first (at_time 6954 20 0) None)) = time_20
   \<and> date_registration (shift_request_select january_2019
        (first_response_select (numbered_first (at_time 6954 20 0) None),
         Some (calendar_day 6954 1))) = Some (at_time 6954 20 0)"
proof -
  let ?r = "numbered_first (at_time 6954 20 0) None"
  let ?dc = "calendar_day 6954 1"
  have h1: "(first_response_select ?r, Some ?dc)
              \<in> set (left_join_calendar january_2019 (first_response_select ?r))"
    by (simp add: fixture_defs)
  have h3: "is_working ?dc = 1"
    by (simp add: fixture_defs)
  have h4: "time_09 \<le> cast_time (date_request ?r)"
    by (simp add: fixture_defs)
  have h5: "cast_time (date_request ?r) = time_20"
    by (simp add: fixture_defs)
  have r: "date_request ?r = at_time 6954 20 0"
    by (simp add: numbered_first_def)
  from business_hours_identity [OF h1 refl h3 h4] h1 h3 h4 h5 r show ?thesis
    by simp
qed

text \<open>
  C6. A request joined with a working calendar row, not on a Friday and strictly after
  20:00, is registered at 09:00 on the day after the request's date, whatever the calendar
  says of that day.
\<close>

theorem evening_next_calendar_day:
  assumes "(fr, Some dc) \<in> set (left_join_calendar cal fr)"
      and "fr = first_response_select r"
      and "is_working dc = 1"
      and "extract_dow (date_request r) \<noteq> 5"
      and "time_20 < cast_time (date_request r)"
  shows "date_registration (shift_request_select cal (fr, Some dc))
           = Some (date_plus_interval (cast_date (date_request r) + 1) time_09)"
  using assms case_rule3 [of dc fr cal]
  by (simp add: first_response_select_def date_plus_interval_def interval_1_days_9_hours_def
      time_09_def algebra_simps)

text \<open>A request at 21:30 on a Saturday that the calendar marks working is registered on
  Sunday at 09:00, although the calendar marks that Sunday non-working.\<close>

theorem evening_next_calendar_day_witness:
  "(first_response_select (numbered_first (at_time 6958 21 30) None), Some (calendar_day 6958 1))
      \<in> set (left_join_calendar [calendar_day 6958 1, calendar_day 6959 0, calendar_day 6960 1]
                (first_response_select (numbered_first (at_time 6958 21 30) None)))
   \<and> is_working (calendar_day 6958 1) = 1
   \<and> extract_dow (date_request (numbered_first (at_time 6958 21 30) None)) \<noteq> 5
   \<and> time_20 < cast_time (date_request (numbered_first (at_time 6958 21 30) None))
   \<and> date_registration
        (shift_request_select [calendar_day 6958 1, calendar_day 6959 0, calendar_day 6960 1]
          (first_response_select (numbered_first (at_time 6958 21 30) None),
           Some (calendar_day 6958 1)))
      = Some (at_time 6959 9 0)"
proof -
  let ?r = "numbered_first (at_time 6958 21 30) None"
  let ?dc = "calendar_day 6958 1"
  let ?cal = "[calendar_day 6958 1, calendar_day 6959 0, calendar_day 6960 1]"
  have h1: "(first_response_select ?r, Some ?dc)
              \<in> set (left_join_calendar ?cal (first_response_select ?r))"
    by (simp add: fixture_defs)
  have h3: "is_working ?dc = 1"
    by (simp add: fixture_defs)
  have h4: "extract_dow (date_request ?r) \<noteq> 5"
    by (simp add: fixture_defs)
  have h5: "time_20 < cast_time (date_request ?r)"
    by (simp add: fixture_defs)
  have v: "date_plus_interval (cast_date (date_request ?r) + 1) time_09 = at_time 6959 9 0"
    by (simp add: fixture_defs)
  from evening_next_calendar_day [OF h1 refl h3 h4 h5] h1 h3 h4 h5 v show ?thesis
    by simp
qed

text \<open>
  C2, as stated, fails. A request on Sunday 13 January at 10:00, with a calendar that has
  no row for that date and marks Monday 14 working: the \<^verbatim>\<open>LEFT JOIN\<close> yields a NULL
  calendar row, no \<^verbatim>\<open>WHEN\<close> condition is true and \<^verbatim>\<open>date_registration\<close> is the
  request's own timestamp, not Monday at 09:00.
\<close>

theorem lookup_miss_counterexample:
  "left_join_calendar [calendar_day 6953 1]
       (first_response_select (numbered_first (at_time 6952 10 0) None))
     = [(first_response_select (numbered_first (at_time 6952 10 0) None), None)]
   \<and> next_working [calendar_day 6953 1] 6952 = Some 6953
   \<and> map date_registration (shift_request [calendar_day 6953 1]
        [first_response_select (numbered_first (at_time 6952 10 0) None)])
     = [Some (at_time 6952 10 0)]
   \<and> Some (at_time 6952 10 0) \<noteq> Some (date_plus_interval 6953 time_09)"
  by (simp add: fixture_defs shift_request_def shift_request_select_def date_registration_case_def sql_defs next_working_def sql_min_def)

text \<open>
  C2, amended. When the calendar has no row for the request's date, the request is joined
  with a NULL calendar row and \<^verbatim>\<open>date_registration\<close> is \<^verbatim>\<open>date_request\<close> unchanged.
\<close>

theorem lookup_miss_keeps_request:
  assumes "fr = first_response_select r"
      and "\<forall>c\<in>set cal. date_calendar c \<noteq> cast_date (date_request r)"
  shows "left_join_calendar cal fr = [(fr, None)]
         \<and> map date_registration (shift_request cal [fr]) = [Some (date_request r)]"
proof -
  have "left_join_calendar cal fr = [(fr, None)]"
    using assms left_join_calendar_miss[of cal fr] by (simp add: first_response_select_def)
  then show ?thesis using assms(1)
    by (simp add: shift_request_single case_miss first_response_select_def)
qed

theorem lookup_miss_keeps_request_witness:
  "date_calendar (calendar_day 6953 1)
     \<noteq> cast_date (date_request (numbered_first (at_time 6952 10 0) None))
   \<and> map date_registration (shift_request [calendar_day 6953 1]
        [first_response_select (numbered_first (at_time 6952 10 0) None)])
     = [Some (at_time 6952 10 0)]"
proof -
  let ?r = "numbered_first (at_time 6952 10 0) None"
  have h: "\<forall>c\<in>set [calendar_day 6953 1]. date_calendar c \<noteq> cast_date (date_request ?r)"
    by (simp add: fixture_defs)
  have r: "date_request ?r = at_time 6952 10 0" by (simp add: numbered_first_def)
  from lookup_miss_keeps_request [OF refl h] h r show ?thesis
    by simp
qed

text \<open>
  C3, as stated, fails. A request on Friday 18 January at 21:30, with a calendar that ends
  on Saturday 19 (non-working): the query returns the row, with a NULL
  \<^verbatim>\<open>date_registration\<close>, and signals nothing.
\<close>

theorem exhausted_counterexample:
  "shift_request [calendar_day 6957 1, calendar_day 6958 0]
     [first_response_select (numbered_first (at_time 6957 21 30) (Some (at_time 6957 22 0)))]
   = [\<lparr>id_client = 7, date_request = at_time 6957 21 30,
       date_response = Some (at_time 6957 22 0), manager = ''manager 1'',
       date_registration = None\<rparr>]"
  by (simp add: fixture_defs shift_request_def shift_request_select_def date_registration_case_def sql_defs next_working_def sql_min_def)

text \<open>
  C3, amended. A request under rule 1 for which the calendar has no working date after the
  request's date yields a row of \<^verbatim>\<open>shift_request\<close> whose \<^verbatim>\<open>date_registration\<close> is NULL,
  and whose \<^verbatim>\<open>interval_hours\<close> is then NULL too.
\<close>

theorem exhausted_calendar_null:
  assumes "(fr, Some dc) \<in> set (left_join_calendar cal fr)"
      and "fr = first_response_select r"
      and "is_working dc = 0
           \<or> (is_working dc = 1 \<and> extract_dow (date_request r) = 5
               \<and> time_20 < cast_time (date_request r))"
      and "\<not> (\<exists>c\<in>set cal. cast_date (date_request r) < date_calendar c \<and> is_working c = 1)"
  shows "shift_request_select cal (fr, Some dc) \<in> set (shift_request cal [fr])
         \<and> date_registration (shift_request_select cal (fr, Some dc)) = None
         \<and> interval_hours (v_response_first_select (shift_request_select cal (fr, Some dc))) = None"
proof -
  have fr: "dow fr = extract_dow (date_request r)" "time_req fr = cast_time (date_request r)"
    "date_req fr = cast_date (date_request r)"
    using assms(2) by (simp_all add: first_response_select_def)
  have "next_working cal (cast_date (date_request r)) = None"
    using assms(4) next_working_None by simp
  then have n: "date_registration_case cal fr (Some dc) = None"
    using case_rule1 [of dc fr cal] assms(3) fr by simp
  have "shift_request_select cal (fr, Some dc) \<in> set (shift_request cal [fr])"
    using assms(1) by (simp add: shift_request_single)
  then show ?thesis using n
    by (simp add: v_response_first_select_def interval_hours_case_def split: option.splits)
qed

theorem exhausted_calendar_null_witness:
  "(first_response_select (numbered_first (at_time 6958 10 0) None), Some (calendar_day 6958 0))
      \<in> set (left_join_calendar [calendar_day 6957 1, calendar_day 6958 0]
                (first_response_select (numbered_first (at_time 6958 10 0) None)))
   \<and> is_working (calendar_day 6958 0) = 0
   \<and> \<not> (\<exists>c\<in>set [calendar_day 6957 1, calendar_day 6958 0].
            cast_date (date_request (numbered_first (at_time 6958 10 0) None)) < date_calendar c
            \<and> is_working c = 1)
   \<and> date_registration (shift_request_select [calendar_day 6957 1, calendar_day 6958 0]
        (first_response_select (numbered_first (at_time 6958 10 0) None),
         Some (calendar_day 6958 0))) = None"
proof -
  let ?r = "numbered_first (at_time 6958 10 0) None"
  let ?dc = "calendar_day 6958 0"
  let ?cal = "[calendar_day 6957 1, calendar_day 6958 0]"
  have h1: "(first_response_select ?r, Some ?dc)
              \<in> set (left_join_calendar ?cal (first_response_select ?r))"
    by (simp add: fixture_defs)
  have h3: "is_working ?dc = 0"
    by (simp add: fixture_defs)
  have h4: "\<not> (\<exists>c\<in>set ?cal. cast_date (date_request ?r) < date_calendar c \<and> is_working c = 1)"
    by (simp add: fixture_defs)
  from exhausted_calendar_null [OF h1 refl disjI1 [OF h3] h4] h1 h3 h4 show ?thesis
    by blast
qed

text \<open>
  C4, as stated, fails. A request on Sunday 13 January at 10:00, with a calendar that ends
  on that Sunday: \<^verbatim>\<open>date_registration\<close> is NULL, and NULL \<open>\<ge>\<close> the request's timestamp
  is not true.
\<close>

theorem registration_null_counterexample:
  "map date_registration (shift_request [calendar_day 6952 0]
     [first_response_select (numbered_first (at_time 6952 10 0) (Some (at_time 6952 11 0)))])
     = [None]
   \<and> \<not> is_true (sql_ge None (Some (at_time 6952 10 0)))"
  by (simp add: fixture_defs shift_request_def shift_request_select_def date_registration_case_def sql_defs next_working_def sql_min_def sql_ge_def)

text \<open>
  C4, amended. For every request joined with the calendar (with a row of its date or with
  none), \<^verbatim>\<open>date_registration\<close> is either NULL, the calendar having no working date after
  the request's date, or a timestamp that is not before \<^verbatim>\<open>date_request\<close>.
\<close>

theorem registration_not_before_request:
  assumes "j \<in> set (left_join_calendar cal fr)"
      and "fr = first_response_select r"
  shows "(date_registration (shift_request_select cal j) = None
           \<and> \<not> (\<exists>c\<in>set cal. cast_date (date_request r) < date_calendar c \<and> is_working c = 1))
         \<or> (\<exists>t. date_registration (shift_request_select cal j) = Some t \<and> date_request r \<le> t)"
proof -
  have fr: "dow fr = extract_dow (date_request r)" "time_req fr = cast_time (date_request r)"
    "date_req fr = cast_date (date_request r)" "date_request fr = date_request r"
    using assms(2) by (simp_all add: first_response_select_def)
  obtain dco where j: "j = (fr, dco)"
    using left_join_calendar_fst [OF assms(1)] by (cases j) auto
  note tb = time_bounds [of "date_request r"]
  note ts = timestamp_split [of "date_request r"]
  show ?thesis
  proof (cases dco)
    case None
    then show ?thesis using j fr by (simp add: case_miss)
  next
    case (Some dc)
    consider (r1) "is_working dc = 0 \<or> (is_working dc = 1 \<and> dow fr = 5 \<and> time_20 < time_req fr)"
      | (r2) "is_working dc = 1" "time_req fr < time_09"
      | (r3) "is_working dc = 1" "dow fr \<noteq> 5" "time_20 < time_req fr"
      | (r4) "is_working dc \<noteq> 0" "is_working dc = 1 \<longrightarrow> time_09 \<le> time_req fr \<and> time_req fr \<le> time_20"
      by fastforce
    then show ?thesis
    proof cases
      case r1
      show ?thesis
      proof (cases "next_working cal (cast_date (date_request r))")
        case None
        then show ?thesis using case_rule1 [OF r1, of cal] j Some fr next_working_None by simp
      next
        case (Some d)
        have "cast_date (date_request r) < d" using next_working_Some [OF Some] by (simp add: earliest_working_after_def)
        then have "date_request r \<le> date_plus_interval d interval_9_hours"
          using tb ts by (simp add: date_plus_interval_def interval_9_hours_def USECS_PER_DAY_def USECS_PER_HOUR_def)
        then show ?thesis using case_rule1 [OF r1, of cal] j \<open>dco = Some dc\<close> fr Some by simp
      qed
    next
      case r2
      have "date_request r \<le> date_plus_interval (cast_date (date_request r)) interval_9_hours"
        using r2(2) fr ts by (simp add: date_plus_interval_def interval_9_hours_def time_09_def)
      then show ?thesis using case_rule2 [OF r2, of cal] j Some fr by simp
    next
      case r3
      have "date_request r \<le> date_plus_interval (cast_date (date_request r)) interval_1_days_9_hours"
        using tb ts by (simp add: date_plus_interval_def interval_1_days_9_hours_def USECS_PER_DAY_def USECS_PER_HOUR_def)
      then show ?thesis using case_rule3 [OF r3, of cal] j Some fr by simp
    next
      case r4
      then show ?thesis using case_else [OF r4, of cal] j Some fr by simp
    qed
  qed
qed

text \<open>The specification's example: a request on Tuesday at 08:10 is registered on Tuesday
  at 09:00.\<close>

theorem registration_not_before_request_witness:
  "(first_response_select (numbered_first (at_time 6954 8 10) None), Some (calendar_day 6954 1))
      \<in> set (left_join_calendar january_2019
                (first_response_select (numbered_first (at_time 6954 8 10) None)))
   \<and> date_registration (shift_request_select january_2019
        (first_response_select (numbered_first (at_time 6954 8 10) None),
         Some (calendar_day 6954 1))) = Some (at_time 6954 9 0)
   \<and> date_request (numbered_first (at_time 6954 8 10) None) \<le> at_time 6954 9 0"
proof -
  let ?r = "numbered_first (at_time 6954 8 10) None"
  let ?dc = "calendar_day 6954 1"
  have h1: "(first_response_select ?r, Some ?dc)
              \<in> set (left_join_calendar january_2019 (first_response_select ?r))"
    by (simp add: fixture_defs)
  have v: "date_registration (shift_request_select january_2019 (first_response_select ?r, Some ?dc))
             = Some (at_time 6954 9 0)"
    by (simp add: fixture_defs date_registration_case_def sql_defs)
  from registration_not_before_request [OF h1 refl] h1 v show ?thesis
    by simp
qed

text \<open>
  C7, as stated, fails. A request on Saturday 19 January at 10:00, answered at 11:00, with
  a calendar that ends on that non-working Saturday: the response is present and
  \<^verbatim>\<open>interval_hours\<close> is NULL, \<^verbatim>\<open>date_registration\<close> being NULL. And a request on
  Monday 3 January 2000 at 10:00 (working), answered 3600000000017.999999 seconds later:
  the quotient 1000000000.00499999972\<dots> is first rounded to 8 places, to 1000000000.005,
  and \<^verbatim>\<open>interval_hours\<close> is 1000000000.01, more than 0.005 away from the quotient.
\<close>

theorem interval_hours_counterexample:
  "date_response (shift_request_select [calendar_day 6958 0]
      (first_response_select (numbered_first (at_time 6958 10 0) (Some (at_time 6958 11 0))),
       Some (calendar_day 6958 0))) = Some (at_time 6958 11 0)
   \<and> interval_hours (v_response_first_select (shift_request_select [calendar_day 6958 0]
      (first_response_select (numbered_first (at_time 6958 10 0) (Some (at_time 6958 11 0))),
       Some (calendar_day 6958 0)))) = None
   \<and> date_response (shift_request_select [calendar_day 2 1]
      (first_response_select
         (numbered_first (at_time 2 10 0) (Some (at_time 2 10 0 + 3600000000017999999))),
       Some (calendar_day 2 1))) = Some (at_time 2 10 0 + 3600000000017999999)
   \<and> date_registration (shift_request_select [calendar_day 2 1]
      (first_response_select
         (numbered_first (at_time 2 10 0) (Some (at_time 2 10 0 + 3600000000017999999))),
       Some (calendar_day 2 1))) = Some (at_time 2 10 0)
   \<and> interval_hours (v_response_first_select (shift_request_select [calendar_day 2 1]
      (first_response_select
         (numbered_first (at_time 2 10 0) (Some (at_time 2 10 0 + 3600000000017999999))),
       Some (calendar_day 2 1)))) = Some (100000000001 / 100)
   \<and> \<not> rounded_to_2_places (of_int 3600000000017999999 / 1000000 / 3600)
         (100000000001 / 100)"
proof -
  let ?e = "shift_request_select [calendar_day 6958 0]
      (first_response_select (numbered_first (at_time 6958 10 0) (Some (at_time 6958 11 0))),
       Some (calendar_day 6958 0))"
  let ?f = "shift_request_select [calendar_day 2 1]
      (first_response_select
         (numbered_first (at_time 2 10 0) (Some (at_time 2 10 0 + 3600000000017999999))),
       Some (calendar_day 2 1))"
  have e1: "date_response ?e = Some (at_time 6958 11 0)"
    by (simp add: shift_request_select_def first_response_select_def numbered_first_def)
  have e2: "date_registration ?e = None"
    by (simp add: fixture_defs date_registration_case_def sql_defs next_working_def sql_min_def)
  have e3: "interval_hours (v_response_first_select ?e) = None"
    using e2 by (simp add: v_response_first_select_def interval_hours_case_def
        split: option.splits)
  have f1: "date_response ?f = Some (at_time 2 10 0 + 3600000000017999999)"
    by (simp add: shift_request_select_def first_response_select_def numbered_first_def)
  have f2: "date_registration ?f = Some (at_time 2 10 0)"
    by (simp add: fixture_defs date_registration_case_def sql_defs)
  have f3: "interval_hours (v_response_first_select ?f) = Some (100000000001 / 100)"
    using f1 f2 round_far_response
    by (simp add: v_response_first_select_def interval_hours_case_def)
  have f4: "\<not> rounded_to_2_places (of_int 3600000000017999999 / 1000000 / 3600)
              (100000000001 / 100)"
    by (simp add: rounded_to_2_places_def)
  from e1 e3 f1 f2 f3 f4 show ?thesis
    by blast
qed

text \<open>
  C7, amended. \<^verbatim>\<open>interval_hours\<close> is NULL when \<^verbatim>\<open>date_response\<close> is NULL and when
  \<^verbatim>\<open>date_registration\<close> is NULL. When both are present it is a whole number of
  hundredths within 0.005 + 0.0000005 of the difference
  \<^verbatim>\<open>date_response - date_registration\<close> in seconds divided by 3600; and when the two are
  less than 360100000000 seconds apart, it is that quotient rounded to 2 decimal places,
  a tie away from zero: a whole number of hundredths within 0.005 of the quotient.
\<close>

theorem interval_hours_rounded:
  "(date_response row = None \<longrightarrow> interval_hours (v_response_first_select row) = None)
   \<and> (date_registration row = None \<longrightarrow> interval_hours (v_response_first_select row) = None)
   \<and> (\<forall>a b. date_response row = Some a \<and> date_registration row = Some b \<longrightarrow>
         (\<exists>h. interval_hours (v_response_first_select row) = Some h
              \<and> h * 100 = of_int \<lfloor>h * 100\<rfloor>
              \<and> \<bar>h - of_int (a - b) / 1000000 / 3600\<bar> \<le> 1 / 200 + 1 / 2000000
              \<and> (\<bar>a - b\<bar> < 360100000000000000 \<longrightarrow>
                    h = sql_round (of_int (a - b) / 1000000 / 3600) 2
                    \<and> rounded_to_2_places (of_int (a - b) / 1000000 / 3600) h)))"
proof (intro conjI allI impI)
  assume "date_response row = None"
  then show "interval_hours (v_response_first_select row) = None"
    by (simp add: v_response_first_select_def interval_hours_case_def)
next
  assume "date_registration row = None"
  then show "interval_hours (v_response_first_select row) = None"
    by (simp add: v_response_first_select_def interval_hours_case_def split: option.splits)
next
  fix a b
  assume ab: "date_response row = Some a \<and> date_registration row = Some b"
  define q :: rat where "q = of_int (a - b) / 1000000 / 3600"
  define h where "h = sql_round (epoch_div_3600 (a - b)) 2"
  have q: "extract_epoch (a - b) / 3600 = q"
    by (simp add: extract_epoch_def q_def)
  have v: "interval_hours (v_response_first_select row) = Some h"
    using ab by (simp add: v_response_first_select_def interval_hours_case_def h_def)
  have r: "rounded_to_2_places (epoch_div_3600 (a - b)) h"
    unfolding h_def by (rule sql_round_2)
  then have whole: "h * 100 = of_int \<lfloor>h * 100\<rfloor>"
    and near: "\<bar>h - epoch_div_3600 (a - b)\<bar> \<le> 1 / 200"
    by (simp_all add: rounded_to_2_places_def)
  have "\<bar>epoch_div_3600 (a - b) - q\<bar> \<le> 1 / 2000000"
    using epoch_div_3600_error [of "a - b"] unfolding q .
  with near have close: "\<bar>h - q\<bar> \<le> 1 / 200 + 1 / 2000000"
    by linarith
  have exact: "h = sql_round q 2 \<and> rounded_to_2_places q h"
    if "\<bar>a - b\<bar> < 360100000000000000"
  proof -
    have "h = sql_round q 2"
      unfolding h_def using epoch_div_3600_exact [OF that] unfolding q .
    then show ?thesis
      using sql_round_2 [of q] by simp
  qed
  show "\<exists>h. interval_hours (v_response_first_select row) = Some h
          \<and> h * 100 = of_int \<lfloor>h * 100\<rfloor>
          \<and> \<bar>h - of_int (a - b) / 1000000 / 3600\<bar> \<le> 1 / 200 + 1 / 2000000
          \<and> (\<bar>a - b\<bar> < 360100000000000000 \<longrightarrow>
                h = sql_round (of_int (a - b) / 1000000 / 3600) 2
                \<and> rounded_to_2_places (of_int (a - b) / 1000000 / 3600) h)"
    using v whole close exact unfolding q_def by blast
qed

text \<open>The specification's example: a request on Tuesday at 14:00, answered on Tuesday at
  16:30, has 2.50 hours.\<close>

theorem interval_hours_rounded_witness:
  "date_response (shift_request_select january_2019
      (first_response_select (numbered_first (at_time 6954 14 0) (Some (at_time 6954 16 30))),
       Some (calendar_day 6954 1))) = Some (at_time 6954 16 30)
   \<and> date_registration (shift_request_select january_2019
      (first_response_select (numbered_first (at_time 6954 14 0) (Some (at_time 6954 16 30))),
       Some (calendar_day 6954 1))) = Some (at_time 6954 14 0)
   \<and> \<bar>at_time 6954 16 30 - at_time 6954 14 0\<bar> < 360100000000000000
   \<and> interval_hours (v_response_first_select (shift_request_select january_2019
      (first_response_select (numbered_first (at_time 6954 14 0) (Some (at_time 6954 16 30))),
       Some (calendar_day 6954 1)))) = Some (5 / 2)
   \<and> rounded_to_2_places (of_int (at_time 6954 16 30 - at_time 6954 14 0) / 1000000 / 3600)
        (5 / 2)"
proof -
  let ?a = "at_time 6954 16 30"
  let ?b = "at_time 6954 14 0"
  let ?row = "shift_request_select january_2019
      (first_response_select (numbered_first ?b (Some ?a)), Some (calendar_day 6954 1))"
  have h1: "date_response ?row = Some ?a"
    by (simp add: shift_request_select_def first_response_select_def numbered_first_def)
  have h2: "date_registration ?row = Some ?b"
    by (simp add: fixture_defs date_registration_case_def sql_defs)
  have h3: "\<bar>?a - ?b\<bar> < 360100000000000000"
    by (simp add: fixture_defs)
  have v: "sql_round (of_int (?a - ?b) / 1000000 / 3600) 2 = 5 / 2"
    by code_simp
  from interval_hours_rounded [of ?row] h1 h2 h3
  have "\<exists>h. interval_hours (v_response_first_select ?row) = Some h
          \<and> h = sql_round (of_int (?a - ?b) / 1000000 / 3600) 2
          \<and> rounded_to_2_places (of_int (?a - ?b) / 1000000 / 3600) h"
    by blast
  then have "interval_hours (v_response_first_select ?row) = Some (5 / 2)
          \<and> rounded_to_2_places (of_int (?a - ?b) / 1000000 / 3600) (5 / 2)"
    unfolding v by blast
  with h1 h2 h3 show ?thesis
    by blast
qed

text \<open>
  C8. \<^verbatim>\<open>first_response\<close> holds exactly one row for a client that has at least one row
  of \<^verbatim>\<open>all_raw\<close> with \<^verbatim>\<open>action_manager = 'response'\<close> and a source of the list,
  whatever the response times of these rows, equal or not; it holds no row for any other
  client.
\<close>

theorem exactly_one_first_response:
  "length (filter (\<lambda>fr. id_client fr = c) (first_response source_list all_raw)) =
     (if \<exists>e\<in>set all_raw. id_client e = c \<and> action_manager e = ''response''
                           \<and> source_client e \<in> set source_list
      then 1 else 0)"
proof -
  let ?sel = "filter (all_response_where source_list) all_raw"
  let ?cs = "remdups (map id_client ?sel)"
  have "\<forall>c'\<in>set ?cs. \<exists>x. filter (\<lambda>r. rn r = 1) (row_number_partition ?sel c') = [x]
          \<and> id_client x = c'"
    using first_of_partition [of _ ?sel] by simp
  then have "length (filter (\<lambda>r. id_client r = c)
               (concat (map (\<lambda>c'. filter (\<lambda>r. rn r = 1) (row_number_partition ?sel c')) ?cs)))
             = (if c \<in> set ?cs then 1 else 0)"
    by (intro count_concat_singletons) simp_all
  moreover have "c \<in> set ?cs \<longleftrightarrow>
      (\<exists>e\<in>set all_raw. id_client e = c \<and> action_manager e = ''response''
                        \<and> source_client e \<in> set source_list)"
    by (auto simp: all_response_where_def)
  ultimately show ?thesis
    unfolding filter_first_response by (simp only: length_map)
qed

text \<open>Client 7 has two qualifying responses at the same time and one first response;
  client 8 has no qualifying event and no first response.\<close>

theorem exactly_one_first_response_witness:
  "length (filter (\<lambda>fr. id_client fr = 7)
       (first_response [''source 1'', ''source 2''] tied_log)) = 1
   \<and> length (filter (\<lambda>fr. id_client fr = 8)
       (first_response [''source 1'', ''source 2''] tied_log)) = 0"
  using exactly_one_first_response [of 7 "[''source 1'', ''source 2'']" tied_log]
    exactly_one_first_response [of 8 "[''source 1'', ''source 2'']" tied_log]
  by (simp add: tied_log_def logged_def)

text \<open>
  C10. A request on Sunday 13 January at 10:00 (non-working), answered that Sunday at
  11:00: the registration is Monday at 09:00, later than the response, and the view of the
  dashboard has the row, with \<open>- 22\<close> hours.
\<close>

theorem negative_interval_hours_emitted:
  "dash_client_service_view [''source 1'']
     [logged 7 (at_time 6952 10 0) (Some (at_time 6952 11 0)) ''manager 1'' ''response''
        ''source 1'']
     january_2019
     [candidate 7 (at_time 6952 10 0) ''source 1'']
   = [\<lparr>dash_id_client = 7, response_status = ''done'',
       dash_date_request = at_time 6952 10 0,
       dash_date_registration = Some (at_time 6953 9 0),
       dash_date_response = Some (at_time 6952 11 0),
       dash_interval_hours = Some (- 22),
       dash_manager = Some ''manager 1''\<rparr>]
   \<and> at_time 6952 11 0 < at_time 6953 9 0
   \<and> (- 22 :: rat) < 0"
  by (simp add: pipeline_defs logged_def candidate_def fixture_defs sql_defs
      round_minus_22_hours)

end
